theory Spec2Isabelle
  imports Complex_Main "HOL-Library.Log_Nat"
begin

section \<open>Python values used by ColorWallpaper.py\<close>

text \<open>
  The exceptions the program and the library calls it makes can raise. Every function of
  the model that can raise returns \<open>error + 'a\<close>, with \<open>Inl\<close> for the exception.
\<close>

datatype error =
    ValueError
  | IndexError
  | KeyError
  | TypeError
  | ZeroDivisionError
  | OverflowError
  | ArgumentTypeError

subsection \<open>Floating point\<close>

text \<open>
  A Python float is an IEEE binary64 number. A finite float is a rational, and every
  arithmetic operation returns the exact result rounded to the nearest number with a
  53-bit significand, ties to the even significand. \<open>fl\<close> is that rounding on the normal
  range (\<open>2 powi -1022 \<le> \<bar>q\<bar> < 2 powi 1024\<close>); every float the colour conversions compute
  from 8-bit channels is zero or lies in that range. Signed zeros are not distinguished:
  the program only compares floats and truncates them.
\<close>

type_synonym pyfloat = rat

definition round_half_even :: "rat \<Rightarrow> int" where
  "round_half_even q =
     (let f = \<lfloor>q\<rfloor>; d = q - of_int f
      in if d < 1 / 2 then f
         else if 1 / 2 < d then f + 1
         else if even f then f else f + 1)"

definition binary_exponent :: "rat \<Rightarrow> int" where
  \<comment> \<open>the \<open>e\<close> with \<open>2 powi e \<le> \<bar>q\<bar> < 2 powi (e + 1)\<close>, for \<open>q \<noteq> 0\<close>\<close>
  "binary_exponent q =
     (let d = bitlen (fst (quotient_of \<bar>q\<bar>)) - bitlen (snd (quotient_of \<bar>q\<bar>))
      in if 2 powi d \<le> \<bar>q\<bar> then d else d - 1)"

definition fl :: "rat \<Rightarrow> pyfloat" where
  "fl q =
     (if q = 0 then 0
      else let e = binary_exponent q - 52
           in of_int (round_half_even (q / 2 powi e)) * 2 powi e)"

definition fadd :: "pyfloat \<Rightarrow> pyfloat \<Rightarrow> pyfloat" where
  "fadd a b = fl (a + b)"

definition fsub :: "pyfloat \<Rightarrow> pyfloat \<Rightarrow> pyfloat" where
  "fsub a b = fl (a - b)"

definition fmul :: "pyfloat \<Rightarrow> pyfloat \<Rightarrow> pyfloat" where
  "fmul a b = fl (a * b)"

definition truediv :: "pyfloat \<Rightarrow> pyfloat \<Rightarrow> error + pyfloat" where
  \<comment> \<open>\<open>a / b\<close>\<close>
  "truediv a b = (if b = 0 then Inl ZeroDivisionError else Inr (fl (a / b)))"

definition py_int :: "pyfloat \<Rightarrow> int" where
  \<comment> \<open>\<open>int(x)\<close> of a float: truncation towards zero\<close>
  "py_int x = (if 0 \<le> x then \<lfloor>x\<rfloor> else \<lceil>x\<rceil>)"

definition py_round :: "pyfloat \<Rightarrow> int" where
  \<comment> \<open>\<open>round(x)\<close> of a float: nearest integer, ties to even\<close>
  "py_round x = round_half_even x"

definition fmod1 :: "pyfloat \<Rightarrow> pyfloat" where
  \<comment> \<open>\<open>x % 1.0\<close>: the C \<open>fmod\<close> is exact and has the sign of \<open>x\<close>; a negative remainder
      is then added to the divisor, which rounds\<close>
  "fmod1 x =
     (let m = (if 0 \<le> x then x - of_int \<lfloor>x\<rfloor> else x - of_int \<lceil>x\<rceil>)
      in if m < 0 then fl (m + 1) else m)"

section \<open>colorsys\<close>

text \<open>
  The two functions of the standard library's \<open>colorsys\<close> that the program imports.
  \<open>rgb_to_hls\<close> returns hue, lightness, saturation, in that order; \<open>rgb_to_hsv\<close> returns
  hue, saturation, value.
\<close>

definition hue_of :: "pyfloat \<Rightarrow> pyfloat \<Rightarrow> pyfloat \<Rightarrow> pyfloat \<Rightarrow> pyfloat \<Rightarrow> error + pyfloat"
  where
  \<comment> \<open>the part the two conversions share: from \<open>rc = ...\<close> to \<open>h = (h/6.0) % 1.0\<close>\<close>
  "hue_of r g b maxc rangec =
     (case truediv (fsub maxc r) rangec of Inl e \<Rightarrow> Inl e | Inr rc \<Rightarrow>
      case truediv (fsub maxc g) rangec of Inl e \<Rightarrow> Inl e | Inr gc \<Rightarrow>
      case truediv (fsub maxc b) rangec of Inl e \<Rightarrow> Inl e | Inr bc \<Rightarrow>
        let h = (if r = maxc then fsub bc gc
                 else if g = maxc then fsub (fadd 2 rc) bc
                 else fsub (fadd 4 gc) rc)
        in Inr (fmod1 (fl (h / 6))))"

definition rgb_to_hsv :: "pyfloat \<Rightarrow> pyfloat \<Rightarrow> pyfloat \<Rightarrow> error + (pyfloat \<times> pyfloat \<times> pyfloat)"
  where
  "rgb_to_hsv r g b =
     (let maxc = max r (max g b);
          minc = min r (min g b);
          rangec = fsub maxc minc;
          v = maxc
      in if minc = maxc then Inr (0, 0, v)
         else case truediv rangec maxc of Inl e \<Rightarrow> Inl e | Inr s \<Rightarrow>
              case hue_of r g b maxc rangec of Inl e \<Rightarrow> Inl e | Inr h \<Rightarrow>
                Inr (h, s, v))"

definition rgb_to_hls :: "pyfloat \<Rightarrow> pyfloat \<Rightarrow> pyfloat \<Rightarrow> error + (pyfloat \<times> pyfloat \<times> pyfloat)"
  where
  "rgb_to_hls r g b =
     (let maxc = max r (max g b);
          minc = min r (min g b);
          sumc = fadd maxc minc;
          rangec = fsub maxc minc;
          l = fl (sumc / 2)
      in if minc = maxc then Inr (0, l, 0)
         else case (if l \<le> 1 / 2 then truediv rangec sumc
                    else truediv rangec (fsub (fsub 2 maxc) minc)) of
                Inl e \<Rightarrow> Inl e
              | Inr s \<Rightarrow>
              case hue_of r g b maxc rangec of Inl e \<Rightarrow> Inl e | Inr h \<Rightarrow>
                Inr (h, l, s))"

section \<open>Color\<close>

text \<open>
  \<open>class Color\<close>: an RGB triple and a name. The constructor stores whatever it is given;
  \<open>inverted_color\<close> passes the result of \<open>dict.get\<close>, which is \<open>None\<close> on a miss, so the
  name is optional in the model.
\<close>

type_synonym rgb = "int \<times> int \<times> int"

record Color =
  rgb :: rgb
  name :: "string option"

definition unit_channel :: "int \<Rightarrow> pyfloat" where
  \<comment> \<open>\<open>comp/255\<close>\<close>
  "unit_channel ch = fl (of_int ch / 255)"

definition hsv :: "rgb \<Rightarrow> error + (int \<times> int \<times> int)" where
  "hsv c =
     (case c of (r, g, b) \<Rightarrow>
      case rgb_to_hsv (unit_channel r) (unit_channel g) (unit_channel b) of
        Inl e \<Rightarrow> Inl e
      | Inr (h, s, v) \<Rightarrow> Inr (py_int (fmul h 360), py_int (fmul s 100), py_int (fmul v 100)))"

definition hsl :: "rgb \<Rightarrow> error + (int \<times> int \<times> int)" where
  "hsl c =
     (case c of (r, g, b) \<Rightarrow>
      case rgb_to_hls (unit_channel r) (unit_channel g) (unit_channel b) of
        Inl e \<Rightarrow> Inl e
      | Inr (h, l, s) \<Rightarrow> Inr (py_int (fmul h 360), py_int (fmul s 100), py_int (fmul l 100)))"

definition complement_channel :: "int \<Rightarrow> pyfloat" where
  \<comment> \<open>\<open>1 - comp/255\<close>\<close>
  "complement_channel ch = fsub 1 (unit_channel ch)"

definition cmyk_key :: "rgb \<Rightarrow> pyfloat" where
  \<comment> \<open>\<open>k = min(c, m, y, 1)\<close>\<close>
  "cmyk_key c =
     (case c of (r, g, b) \<Rightarrow>
        min (complement_channel r) (min (complement_channel g) (min (complement_channel b) 1)))"

definition cmyk :: "rgb \<Rightarrow> error + (int \<times> int \<times> int \<times> int)" where
  "cmyk col =
     (case col of (r, g, b) \<Rightarrow>
      let c = complement_channel r;
          m = complement_channel g;
          y = complement_channel b;
          k = cmyk_key col
      in if k = 1 then Inr (0, 0, 0, 100)
         else case truediv (fsub c k) (fsub 1 k) of Inl e \<Rightarrow> Inl e | Inr c' \<Rightarrow>
              case truediv (fsub m k) (fsub 1 k) of Inl e \<Rightarrow> Inl e | Inr m' \<Rightarrow>
              case truediv (fsub y k) (fsub 1 k) of Inl e \<Rightarrow> Inl e | Inr y' \<Rightarrow>
                Inr (py_int (fmul c' 100), py_int (fmul m' 100), py_int (fmul y' 100),
                     py_int (fmul k 100)))"


text \<open>
  The canonical HSL components of a colour with channels in \<open>[0, 1]\<close>, as the claim
  about the order of the result of \<open>hsl\<close> names them: the lightness is the mean of the
  largest and the smallest channel, the saturation is zero for a grey and otherwise the
  range of the channels over \<open>max + min\<close> (lightness at most one half) or over
  \<open>2 - max - min\<close>. They are computed in the same arithmetic as the program.
\<close>

definition canonical_lightness :: "pyfloat \<Rightarrow> pyfloat \<Rightarrow> pyfloat \<Rightarrow> pyfloat" where
  "canonical_lightness r g b = fl (fadd (max r (max g b)) (min r (min g b)) / 2)"

definition canonical_saturation :: "pyfloat \<Rightarrow> pyfloat \<Rightarrow> pyfloat \<Rightarrow> pyfloat" where
  "canonical_saturation r g b =
     (let mx = max r (max g b); mn = min r (min g b)
      in if mx = mn then 0
         else if canonical_lightness r g b \<le> 1 / 2 then fl (fsub mx mn / fadd mx mn)
         else fl (fsub mx mn / fsub (fsub 2 mx) mn))"

section \<open>Images\<close>

text \<open>
  The program builds its images with calls of the Pillow library. An image is modelled by
  the calls that built it: its size is exact, and the two failures of the library that
  depend on the size are branches of the model (a negative dimension in \<open>Image.new\<close>, a
  pixel outside the image in \<open>putpixel\<close>). The in-place calls return the new image.
\<close>

type_synonym rgba = "int \<times> int \<times> int \<times> int"

datatype image =
    New "int \<times> int" rgba
  | PutPixel image "int \<times> int" rgb
  | Rectangle image "int \<times> int \<times> int \<times> int" rgb int
  | AlphaComposite image image "int \<times> int"
  | Resize image "int \<times> int"

fun img_size :: "image \<Rightarrow> int \<times> int" where
  "img_size (New s c) = s"
| "img_size (PutPixel im xy c) = img_size im"
| "img_size (Rectangle im box c w) = img_size im"
| "img_size (AlphaComposite im overlay dest) = img_size im"
| "img_size (Resize im s) = s"

definition image_new :: "int \<times> int \<Rightarrow> rgba \<Rightarrow> error + image" where
  \<comment> \<open>\<open>Image.new('RGBA', size, color)\<close>\<close>
  "image_new s c = (if fst s < 0 \<or> snd s < 0 then Inl ValueError else Inr (New s c))"

definition putpixel :: "image \<Rightarrow> int \<times> int \<Rightarrow> rgb \<Rightarrow> error + image" where
  \<comment> \<open>\<open>img.putpixel(xy, color)\<close>; the program never passes a negative coordinate\<close>
  "putpixel im xy c =
     (if 0 \<le> fst xy \<and> fst xy < fst (img_size im) \<and> 0 \<le> snd xy \<and> snd xy < snd (img_size im)
      then Inr (PutPixel im xy c) else Inl IndexError)"

definition transparent :: rgba where
  "transparent = (0, 0, 0, 0)"

definition opaque :: "rgb \<Rightarrow> rgba" where
  \<comment> \<open>an RGB triple given as the colour of an RGBA image has alpha 255\<close>
  "opaque c = (case c of (r, g, b) \<Rightarrow> (r, g, b, 255))"

section \<open>The text rasterizer\<close>

text \<open>
  \<open>font\<close> comes from the module \<open>data\<close>, which is not part of the sources at hand: it is
  a parameter of the model. \<open>font(char)\<close> is a list of rows of pixels, or raises.
\<close>

type_synonym glyph = "bool list list"

type_synonym font = "char \<Rightarrow> error + glyph"

definition glyph_width :: "font \<Rightarrow> char \<Rightarrow> error + int" where
  \<comment> \<open>\<open>len(font(char)[0])\<close>\<close>
  "glyph_width font c =
     (case font c of
        Inl e \<Rightarrow> Inl e
      | Inr [] \<Rightarrow> Inl IndexError
      | Inr (row # _) \<Rightarrow> Inr (int (length row)))"

fun sum_widths :: "font \<Rightarrow> string \<Rightarrow> error + int" where
  \<comment> \<open>\<open>sum(len(font(char)[0]) for char in text)\<close>\<close>
  "sum_widths font [] = Inr 0"
| "sum_widths font (c # cs) =
     (case glyph_width font c of
        Inl e \<Rightarrow> Inl e
      | Inr w \<Rightarrow> (case sum_widths font cs of Inl e \<Rightarrow> Inl e | Inr n \<Rightarrow> Inr (w + n)))"

text \<open>
  The loops of \<open>__generate_text\<close>. The variable \<open>x\<close> of the innermost loop outlives the
  loop: \<open>offset += x + 1\<close> reads the last column index it was given, so \<open>x\<close> is part of
  the state. \<open>paint_row\<close> is \<open>for x in range(len(pixel_map[y]))\<close> from column \<open>i\<close> on,
  \<open>paint_rows\<close> is \<open>for y in range(len(pixel_map))\<close> from row \<open>y\<close> on.
\<close>

fun paint_row :: "rgb \<Rightarrow> int \<Rightarrow> int \<Rightarrow> int \<Rightarrow> bool list \<Rightarrow> int \<times> image \<Rightarrow> error + (int \<times> image)"
  where
  "paint_row col offset y i [] (x, img) = Inr (x, img)"
| "paint_row col offset y i (p # ps) (x, img) =
     (if p
      then (case putpixel img (offset + i, y) col of
              Inl e \<Rightarrow> Inl e
            | Inr img' \<Rightarrow> paint_row col offset y (i + 1) ps (i, img'))
      else paint_row col offset y (i + 1) ps (i, img))"

fun paint_rows :: "rgb \<Rightarrow> int \<Rightarrow> int \<Rightarrow> glyph \<Rightarrow> int \<times> image \<Rightarrow> error + (int \<times> image)"
  where
  "paint_rows col offset y [] (x, img) = Inr (x, img)"
| "paint_rows col offset y (row # rows) (x, img) =
     (case paint_row col offset y 0 row (x, img) of
        Inl e \<Rightarrow> Inl e
      | Inr s \<Rightarrow> paint_rows col offset (y + 1) rows s)"

definition paint_char :: "font \<Rightarrow> rgb \<Rightarrow> char \<Rightarrow> int \<times> int \<times> image \<Rightarrow> error + (int \<times> int \<times> image)"
  where
  \<comment> \<open>one turn of \<open>for char in text\<close>, on the state \<open>(offset, x, img)\<close>\<close>
  "paint_char font col c s =
     (case s of (offset, x, img) \<Rightarrow>
      case font c of
        Inl e \<Rightarrow> Inl e
      | Inr pixel_map \<Rightarrow>
          (case paint_rows col offset 0 pixel_map (x, img) of
             Inl e \<Rightarrow> Inl e
           | Inr (x', img') \<Rightarrow> Inr (offset + (x' + 1), x', img')))"

fun paint_text :: "font \<Rightarrow> rgb \<Rightarrow> string \<Rightarrow> int \<times> int \<times> image \<Rightarrow> error + (int \<times> int \<times> image)"
  where
  "paint_text font col [] s = Inr s"
| "paint_text font col (c # cs) s =
     (case paint_char font col c s of Inl e \<Rightarrow> Inl e | Inr s' \<Rightarrow> paint_text font col cs s')"

definition generate_text :: "font \<Rightarrow> rgb \<Rightarrow> string \<Rightarrow> error + image" where
  \<comment> \<open>\<open>Wallpaper.__generate_text\<close>; \<open>col\<close> is \<open>self.color2.rgb\<close>\<close>
  "generate_text font col text =
     (case sum_widths font text of
        Inl e \<Rightarrow> Inl e
      | Inr n \<Rightarrow>
          (let text_length = n - 1
           in case image_new (text_length, 8) transparent of
                Inl e \<Rightarrow> Inl e
              | Inr img \<Rightarrow>
                  (case paint_text font col text (0, 0, img) of
                     Inl e \<Rightarrow> Inl e
                   | Inr (offset, x, img') \<Rightarrow> Inr img')))"

text \<open>
  A font for the concrete evaluations: every character but the space is a solid block,
  three pixels wide and eight high, with one blank column to its right; the space is four
  blank columns.
\<close>

definition block_font :: font where
  "block_font c =
     Inr (replicate 8 (if c = CHR '' '' then [False, False, False, False]
                       else [True, True, True, False]))"


text \<open>
  The glyphs on which the rasterizer is shown to return: eight rows, all of the width of
  the first, at least one column wide, the last column blank. \<open>width_of\<close> is the number
  of columns of a character's grid, which the rasterizer reads as \<open>len(font(char)[0])\<close>.
\<close>

definition wf_glyph :: "glyph \<Rightarrow> bool" where
  "wf_glyph g \<longleftrightarrow>
     length g = 8 \<and> (\<forall>row \<in> set g. row \<noteq> [] \<and> length row = length (hd g) \<and> \<not> last row)"

definition glyph_ok :: "font \<Rightarrow> char \<Rightarrow> bool" where
  "glyph_ok font c = (case font c of Inl e \<Rightarrow> False | Inr g \<Rightarrow> wf_glyph g)"

definition width_of :: "font \<Rightarrow> char \<Rightarrow> int" where
  "width_of font c = (case font c of Inr (row # rows) \<Rightarrow> int (length row) | _ \<Rightarrow> 0)"



section \<open>Strings\<close>

text \<open>
  A Python string is modelled as a list of characters holding ASCII text: the case
  mappings and the character classes below are those of Python on ASCII.
\<close>

definition is_space :: "char \<Rightarrow> bool" where
  \<comment> \<open>\<open>str.isspace\<close>, the class \<open>\s\<close> of \<open>re\<close>, the separators of \<open>str.split()\<close>\<close>
  "is_space c \<longleftrightarrow> (of_char c :: nat) \<in> {9, 10, 11, 12, 13, 28, 29, 30, 31, 32}"

definition is_digit :: "char \<Rightarrow> bool" where
  \<comment> \<open>the class \<open>\d\<close>\<close>
  "is_digit c \<longleftrightarrow> 48 \<le> (of_char c :: nat) \<and> (of_char c :: nat) \<le> 57"

definition digit_val :: "nat \<Rightarrow> char \<Rightarrow> nat option" where
  \<comment> \<open>the value of a digit in a base up to 36, either case\<close>
  "digit_val base c =
     (let n = (of_char c :: nat);
          v = (if 48 \<le> n \<and> n \<le> 57 then Some (n - 48)
               else if 97 \<le> n \<and> n \<le> 122 then Some (n - 87)
               else if 65 \<le> n \<and> n \<le> 90 then Some (n - 55)
               else None)
      in case v of None \<Rightarrow> None | Some d \<Rightarrow> if d < base then Some d else None)"

definition is_hex_digit :: "char \<Rightarrow> bool" where
  \<comment> \<open>the class \<open>[\da-f]\<close> under \<open>re.I\<close>\<close>
  "is_hex_digit c \<longleftrightarrow> digit_val 16 c \<noteq> None"

definition strip :: "string \<Rightarrow> string" where
  "strip s = rev (dropWhile is_space (rev (dropWhile is_space s)))"

fun digits :: "nat \<Rightarrow> nat \<Rightarrow> bool \<Rightarrow> string \<Rightarrow> nat option" where
  \<comment> \<open>the digits of an integer literal: single underscores are allowed between digits;
      the flag says that the character before was a digit\<close>
  "digits base acc prev [] = (if prev then Some acc else None)"
| "digits base acc prev (c # cs) =
     (if c = CHR ''_'' then (if prev then digits base acc False cs else None)
      else case digit_val base c of
             None \<Rightarrow> None
           | Some d \<Rightarrow> digits base (acc * base + d) True cs)"

definition int_of_str :: "nat \<Rightarrow> string \<Rightarrow> error + int" where
  \<comment> \<open>\<open>int(s)\<close> (base 10) and \<open>int(s, 16)\<close>: surrounding whitespace, a sign, for base 16 an
      optional \<open>0x\<close> prefix, then the digits\<close>
  "int_of_str base s =
     (let t = strip s;
          negative = (case t of c # r \<Rightarrow> c = CHR ''-'' | [] \<Rightarrow> False);
          u = (case t of c # r \<Rightarrow> if c = CHR ''+'' \<or> c = CHR ''-'' then r else t | [] \<Rightarrow> t);
          v = (if base = 16 \<and> (take 2 u = ''0x'' \<or> take 2 u = ''0X'')
               then (if take 1 (drop 2 u) = ''_'' then drop 3 u else drop 2 u)
               else u)
      in case digits base 0 False v of
           None \<Rightarrow> Inl ValueError
         | Some n \<Rightarrow> Inr (if negative then - int n else int n))"

definition lower_char :: "char \<Rightarrow> char" where
  "lower_char c =
     (if 65 \<le> (of_char c :: nat) \<and> (of_char c :: nat) \<le> 90
      then char_of ((of_char c :: nat) + 32) else c)"

definition upper_char :: "char \<Rightarrow> char" where
  "upper_char c =
     (if 97 \<le> (of_char c :: nat) \<and> (of_char c :: nat) \<le> 122
      then char_of ((of_char c :: nat) - 32) else c)"

definition lower :: "string \<Rightarrow> string" where
  "lower s = map lower_char s"

definition capitalize :: "string \<Rightarrow> string" where
  "capitalize s = (case s of [] \<Rightarrow> [] | c # cs \<Rightarrow> upper_char c # lower cs)"

fun digits_of :: "nat \<Rightarrow> nat \<Rightarrow> nat list" where
  \<comment> \<open>the digits of a number in a base from 2 on, most significant first\<close>
  "digits_of base n =
     (if base < 2 \<or> n < base then [n] else digits_of base (n div base) @ [n mod base])"

definition digit_char :: "bool \<Rightarrow> nat \<Rightarrow> char" where
  "digit_char upper d =
     (if d < 10 then char_of (48 + d) else if upper then char_of (55 + d) else char_of (87 + d))"

definition str_int :: "int \<Rightarrow> string" where
  \<comment> \<open>\<open>str(n)\<close>\<close>
  "str_int n =
     (if n < 0 then CHR ''-'' # map (digit_char False) (digits_of 10 (nat (- n)))
      else map (digit_char False) (digits_of 10 (nat n)))"

definition format_02x :: "bool \<Rightarrow> int \<Rightarrow> string" where
  \<comment> \<open>\<open>'{0:02x}'.format(c)\<close>, or \<open>02X\<close>: hexadecimal, padded with zeros after the sign to
      two characters in all\<close>
  "format_02x upper c =
     (let ds = map (digit_char upper) (digits_of 16 (nat \<bar>c\<bar>))
      in if c < 0 then CHR ''-'' # replicate (1 - length ds) CHR ''0'' @ ds
         else replicate (2 - length ds) CHR ''0'' @ ds)"

fun join :: "string \<Rightarrow> string list \<Rightarrow> string" where
  \<comment> \<open>\<open>sep.join(parts)\<close>\<close>
  "join sep [] = []"
| "join sep [p] = p"
| "join sep (p # q # ps) = p @ sep @ join sep (q # ps)"

definition rsplit_space :: "string \<Rightarrow> string list" where
  \<comment> \<open>\<open>s.rsplit(' ', 1)\<close>: the string cut at its last space, or the string alone\<close>
  "rsplit_space s =
     (if CHR '' '' \<in> set s
      then [rev (tl (dropWhile (\<lambda>c. c \<noteq> CHR '' '') (rev s))),
            rev (takeWhile (\<lambda>c. c \<noteq> CHR '' '') (rev s))]
      else [s])"

section \<open>The badge\<close>

text \<open>
  \<open>class Wallpaper\<close>, without the output path and the overwrite flag: the model stops
  where the image is handed to the file system. \<open>w_x\<close> is the field \<open>x\<close>, which the
  constructor sets to \<open>'x'\<close> or \<open>'X'\<close>; the other fields are named likewise.
\<close>

record Wallpaper =
  w_resolution :: "int \<times> int"
  w_color :: Color
  w_color2 :: Color
  w_formats :: "string list"
  w_x :: string

definition map3 :: "(int \<Rightarrow> string) \<Rightarrow> rgb \<Rightarrow> string list" where
  "map3 f c = (case c of (r, g, b) \<Rightarrow> [f r, f g, f b])"

definition rows :: "Wallpaper \<Rightarrow> error + (string \<rightharpoonup> string \<times> string)" where
  \<comment> \<open>the dictionary \<open>rows\<close>: every entry is computed when the dictionary is built\<close>
  "rows w =
     (if w_x w \<noteq> ''x'' \<and> w_x w \<noteq> ''X'' then Inl ValueError
      else
        let c = rgb (w_color w);
            hexs = concat (map3 (format_02x (w_x w = ''X'')) c)
        in case hsv c of Inl e \<Rightarrow> Inl e | Inr (h, s, v) \<Rightarrow>
           case hsl c of Inl e \<Rightarrow> Inl e | Inr (h', s', l') \<Rightarrow>
           case cmyk c of Inl e \<Rightarrow> Inl e | Inr (cc, cm, cy, ck) \<Rightarrow>
             Inr [''hex'' \<mapsto> (''HEX '', hexs),
                  ''#hex'' \<mapsto> (''HEX '', CHR ''#'' # hexs),
                  ''rgb'' \<mapsto> (''RGB '', join '' '' (map3 str_int c)),
                  ''hsv'' \<mapsto> (''HSV '', join '' '' (map str_int [h, s, v])),
                  ''hsl'' \<mapsto> (''HSL '', join '' '' (map str_int [h', s', l'])),
                  ''cmyk'' \<mapsto> (''CMYK '', join '' '' (map str_int [cc, cm, cy, ck])),
                  ''empty'' \<mapsto> ('' '', '' '')])"

definition place_name :: "font \<Rightarrow> rgb \<Rightarrow> string option \<Rightarrow> image \<Rightarrow> error + (image \<times> int)"
  where
  \<comment> \<open>the name block of \<open>__generate_decoration\<close>, from \<open>name = ...\<close> to the end of the
      \<open>if\<close>: the badge and the cursor \<open>y\<close> after it. A name that is \<open>None\<close> cannot be
      iterated.\<close>
  "place_name font col nm img =
     (case nm of
        None \<Rightarrow> Inl TypeError
      | Some s \<Rightarrow>
          (case generate_text font col s of
             Inl e \<Rightarrow> Inl e
           | Inr name_img \<Rightarrow>
               (let x = fst (img_size name_img); y = snd (img_size name_img)
                in if x \<le> 112 then Inr (AlphaComposite img name_img (8, y), y)
                   else case rsplit_space s of
                          [text1, text2] \<Rightarrow>
                            (case generate_text font col text1 of
                               Inl e \<Rightarrow> Inl e
                             | Inr img1 \<Rightarrow>
                                 (case generate_text font col text2 of
                                    Inl e \<Rightarrow> Inl e
                                  | Inr img2 \<Rightarrow>
                                      Inr (AlphaComposite (AlphaComposite img img1 (8, y))
                                             img2 (8, y + 12),
                                           y + 12)))
                        | _ \<Rightarrow> Inl ValueError)))"

definition place_row :: "font \<Rightarrow> rgb \<Rightarrow> string \<times> string \<Rightarrow> image \<times> int \<Rightarrow> error + (image \<times> int)"
  where
  \<comment> \<open>one turn of \<open>for key in self.formats\<close>, given \<open>rows[key]\<close>\<close>
  "place_row font col row s =
     (case s of (img, y) \<Rightarrow>
      let y' = y + 12
      in case generate_text font col (fst row) of
           Inl e \<Rightarrow> Inl e
         | Inr label \<Rightarrow>
             (case generate_text font col (snd row) of
                Inl e \<Rightarrow> Inl e
              | Inr val \<Rightarrow>
                  Inr (AlphaComposite (AlphaComposite img label (8, y')) val
                         (3 + 5 + fst (img_size label), y'),
                       y')))"

fun place_rows :: "font \<Rightarrow> rgb \<Rightarrow> (string \<rightharpoonup> string \<times> string) \<Rightarrow> string list \<Rightarrow> image \<times> int
    \<Rightarrow> error + (image \<times> int)"
  where
  "place_rows font col rs [] s = Inr s"
| "place_rows font col rs (key # keys) s =
     (case rs key of
        None \<Rightarrow> Inl KeyError
      | Some row \<Rightarrow>
          (case place_row font col row s of
             Inl e \<Rightarrow> Inl e
           | Inr s' \<Rightarrow> place_rows font col rs keys s'))"

definition generate_decoration :: "font \<Rightarrow> Wallpaper \<Rightarrow> error + image" where
  "generate_decoration font w =
     (case image_new (128, 128) transparent of
        Inl e \<Rightarrow> Inl e
      | Inr img \<Rightarrow>
          (let col = rgb (w_color2 w);
               img1 = Rectangle img (0, 0, 127, 127) col 3
           in case place_name font col (name (w_color w)) img1 of
                Inl e \<Rightarrow> Inl e
              | Inr s \<Rightarrow>
                  (case rows w of
                     Inl e \<Rightarrow> Inl e
                   | Inr rs \<Rightarrow>
                       (case place_rows font col rs (w_formats w) s of
                          Inl e \<Rightarrow> Inl e
                        | Inr (img2, y) \<Rightarrow> Inr img2))))"

section \<open>The canvas\<close>

definition int_truediv :: "int \<Rightarrow> int \<Rightarrow> error + pyfloat" where
  \<comment> \<open>\<open>a / b\<close> of two integers: the quotient correctly rounded, or an error when it is
      beyond the range of floats\<close>
  "int_truediv a b =
     (if b = 0 then Inl ZeroDivisionError
      else if 2 powi 1024 \<le> \<bar>fl (of_int a / of_int b)\<bar> then Inl OverflowError
      else Inr (fl (of_int a / of_int b)))"

definition decor_size :: "int \<times> int \<Rightarrow> error + int" where
  \<comment> \<open>\<open>smaller = min(self.resolution)\<close>;
      \<open>decor_size = 128 * max(round(smaller / 4 / 128), 1)\<close>\<close>
  "decor_size res =
     (let smaller = min (fst res) (snd res)
      in case int_truediv smaller 4 of
           Inl e \<Rightarrow> Inl e
         | Inr q \<Rightarrow>
             (case truediv q 128 of
                Inl e \<Rightarrow> Inl e
              | Inr q' \<Rightarrow> Inr (128 * max (py_round q') 1)))"

definition decor_offset :: "int \<times> int \<Rightarrow> int \<Rightarrow> int \<times> int" where
  \<comment> \<open>\<open>((self.resolution[0]-decor_size) // 2, (self.resolution[1]-decor_size) // 2)\<close>\<close>
  "decor_offset res d = ((fst res - d) div 2, (snd res - d) div 2)"

definition generate_image :: "font \<Rightarrow> Wallpaper \<Rightarrow> error + image" where
  \<comment> \<open>\<open>Wallpaper.generate_image\<close>, up to the composition of the badge\<close>
  "generate_image font w =
     (case image_new (w_resolution w) (opaque (rgb (w_color w))) of
        Inl e \<Rightarrow> Inl e
      | Inr img \<Rightarrow>
          (case decor_size (w_resolution w) of
             Inl e \<Rightarrow> Inl e
           | Inr d \<Rightarrow>
               (case generate_decoration font w of
                  Inl e \<Rightarrow> Inl e
                | Inr decoration \<Rightarrow>
                    Inr (AlphaComposite img (Resize decoration (d, d))
                           (decor_offset (w_resolution w) d)))))"

section \<open>Parsing the colours\<close>

text \<open>
  The tables \<open>color_to_hex\<close>, \<open>hex_to_color\<close> and \<open>pretty_names\<close> come from the module
  \<open>data\<close> as \<open>font\<close> does, and are parameters of the model.
\<close>

definition hex_fullmatch :: "string \<Rightarrow> string option" where
  \<comment> \<open>\<open>hex_re.fullmatch(arg)\<close> and its group 1; \<open>hex_re\<close> is
      \<^verbatim>\<open>\s*#?([\da-f]{6}|[\da-f]{3})\s*\<close>, ignoring case\<close>
  "hex_fullmatch arg =
     (let s = dropWhile is_space arg;
          t = (case s of c # r \<Rightarrow> if c = CHR ''#'' then r else s | [] \<Rightarrow> s);
          body = takeWhile is_hex_digit t;
          rest = dropWhile is_hex_digit t
      in if (length body = 6 \<or> length body = 3) \<and> list_all is_space rest
         then Some body else None)"

definition take_number :: "string \<Rightarrow> (string \<times> string) option" where
  \<comment> \<open>\<^verbatim>\<open>\s*(\d+)\s*\<close> at the head of a string: the group and what follows the match\<close>
  "take_number s =
     (let t = dropWhile is_space s; d = takeWhile is_digit t
      in if d = [] then None else Some (d, dropWhile is_space (dropWhile is_digit t)))"

definition take_comma :: "string \<Rightarrow> string option" where
  "take_comma s = (case s of c # r \<Rightarrow> if c = CHR '','' then Some r else None | [] \<Rightarrow> None)"

definition rgb_fullmatch :: "string \<Rightarrow> (string \<times> string \<times> string \<times> string) option" where
  \<comment> \<open>\<open>rgb_re.fullmatch(arg)\<close> and its groups 0 to 3; \<open>rgb_re\<close> is
      \<^verbatim>\<open>\s*(\d+)\s*,\s*(\d+)\s*,\s*(\d+)\s*\s*\<close>. Group 0 is the whole match, which for
      \<open>fullmatch\<close> is the whole string.\<close>
  "rgb_fullmatch arg =
     (case take_number arg of None \<Rightarrow> None | Some (g1, r1) \<Rightarrow>
      case take_comma r1 of None \<Rightarrow> None | Some r1' \<Rightarrow>
      case take_number r1' of None \<Rightarrow> None | Some (g2, r2) \<Rightarrow>
      case take_comma r2 of None \<Rightarrow> None | Some r2' \<Rightarrow>
      case take_number r2' of None \<Rightarrow> None | Some (g3, r3) \<Rightarrow>
        if r3 = [] then Some (arg, g1, g2, g3) else None)"

definition normalized :: "string \<Rightarrow> string" where
  \<comment> \<open>\<open>''.join(s.split()).lower()\<close>\<close>
  "normalized s = lower (filter (\<lambda>c. \<not> is_space c) s)"

definition int_tuple :: "string \<Rightarrow> string \<Rightarrow> string \<Rightarrow> error + rgb" where
  \<comment> \<open>\<open>tuple(map(int, t))\<close> of three strings\<close>
  "int_tuple a b c =
     (case int_of_str 10 a of Inl e \<Rightarrow> Inl e | Inr x \<Rightarrow>
      case int_of_str 10 b of Inl e \<Rightarrow> Inl e | Inr y \<Rightarrow>
      case int_of_str 10 c of Inl e \<Rightarrow> Inl e | Inr z \<Rightarrow> Inr (x, y, z))"

definition parse_hex :: "string \<Rightarrow> error + rgb" where
  \<comment> \<open>\<open>tuple(int(arg[le//3*i:le//3*(i+1)], 16) for i in range(3))\<close>\<close>
  "parse_hex arg =
     (let n = length arg div 3
      in case int_of_str 16 (take n arg) of Inl e \<Rightarrow> Inl e | Inr x \<Rightarrow>
         case int_of_str 16 (take n (drop n arg)) of Inl e \<Rightarrow> Inl e | Inr y \<Rightarrow>
         case int_of_str 16 (take n (drop (2 * n) arg)) of Inl e \<Rightarrow> Inl e | Inr z \<Rightarrow>
           Inr (x, y, z))"

definition in_byte :: "int \<Rightarrow> bool" where
  "in_byte c \<longleftrightarrow> 0 \<le> c \<and> c \<le> 255"

definition named :: "(string \<rightharpoonup> string) \<Rightarrow> rgb \<Rightarrow> string option \<Rightarrow> Color" where
  \<comment> \<open>the end of \<open>color\<close>: \<open>name\<close> defaults to \<open>'anonymous'\<close>, and the colour is
      \<open>Color(rgb, pretty_names.get(name, name.capitalize()))\<close>\<close>
  "named pretty_names c nm =
     (let n = (case nm of None \<Rightarrow> ''anonymous'' | Some n \<Rightarrow> n)
      in \<lparr>rgb = c,
          name = Some (case pretty_names n of None \<Rightarrow> capitalize n | Some p \<Rightarrow> p)\<rparr>)"

definition color :: "(string \<rightharpoonup> string) \<Rightarrow> (string \<rightharpoonup> string) \<Rightarrow> string \<Rightarrow> error + Color"
  where
  "color color_to_hex pretty_names arg =
     (case hex_fullmatch arg of
        Some h \<Rightarrow>
          (case parse_hex h of Inl e \<Rightarrow> Inl e | Inr c \<Rightarrow> Inr (named pretty_names c None))
      | None \<Rightarrow>
          (case rgb_fullmatch arg of
             Some (g0, g1, g2, g3) \<Rightarrow>
               (case int_tuple g0 g1 g2 of
                  Inl e \<Rightarrow> Inl e
                | Inr (r, g, b) \<Rightarrow>
                    if \<not> (in_byte r \<and> in_byte g \<and> in_byte b) then Inl ArgumentTypeError
                    else Inr (named pretty_names (r, g, b) None))
           | None \<Rightarrow>
               (let n = normalized arg
                in case color_to_hex n of
                     None \<Rightarrow> Inl ArgumentTypeError
                   | Some h \<Rightarrow>
                       (case parse_hex h of
                          Inl e \<Rightarrow> Inl e
                        | Inr c \<Rightarrow> Inr (named pretty_names c (Some n))))))"

definition inverted_color :: "(string \<rightharpoonup> string) \<Rightarrow> rgb \<Rightarrow> Color" where
  \<comment> \<open>\<open>dict.get\<close> returns \<open>None\<close> for a key the table does not hold\<close>
  "inverted_color hex_to_color source =
     (case source of (r, g, b) \<Rightarrow>
        \<lparr>rgb = (255 - r, 255 - g, 255 - b),
         name = hex_to_color (concat (map3 (format_02x False) (255 - r, 255 - g, 255 - b)))\<rparr>)"

definition default_color :: Color where
  \<comment> \<open>the default of \<open>--color\<close>\<close>
  "default_color = \<lparr>rgb = (255, 2, 141), name = Some ''Hot Pink''\<rparr>"

definition get_options_colors ::
  "(string \<rightharpoonup> string) \<Rightarrow> (string \<rightharpoonup> string) \<Rightarrow> (string \<rightharpoonup> string)
     \<Rightarrow> string option \<Rightarrow> string option \<Rightarrow> error + (Color \<times> Color)"
  where
  \<comment> \<open>the colours \<open>get_options\<close> returns, from the arguments of \<open>--color\<close> and \<open>--color2\<close>
      when given\<close>
  "get_options_colors color_to_hex hex_to_color pretty_names c c2 =
     (case (case c of None \<Rightarrow> Inr default_color
                    | Some a \<Rightarrow> color color_to_hex pretty_names a) of
        Inl e \<Rightarrow> Inl e
      | Inr col \<Rightarrow>
          (case c2 of
             None \<Rightarrow> Inr (col, inverted_color hex_to_color (rgb col))
           | Some a \<Rightarrow>
               (case color color_to_hex pretty_names a of
                  Inl e \<Rightarrow> Inl e
                | Inr col2 \<Rightarrow> Inr (col, col2))))"

text \<open>
  What has been composited onto an image since it was created: the size of each overlay
  and its destination, in the order of the calls.
\<close>

fun composites :: "image \<Rightarrow> ((int \<times> int) \<times> (int \<times> int)) list" where
  "composites (New s c) = []"
| "composites (PutPixel im xy c) = composites im"
| "composites (Rectangle im box c w) = composites im"
| "composites (AlphaComposite im overlay dest) = composites im @ [(img_size overlay, dest)]"
| "composites (Resize im s) = []"

text \<open>A table of colour names for the concrete evaluations.\<close>

definition sample_hex_to_color :: "string \<rightharpoonup> string" where
  "sample_hex_to_color = [''000000'' \<mapsto> ''black'', ''ffffff'' \<mapsto> ''white'', ''ff0000'' \<mapsto> ''red'']"

section \<open>Properties of the model\<close>

lemma bitlen_ge_1:
  assumes "0 < a"
  shows "1 \<le> bitlen a"
  using assms by (simp add: bitlen_def floorlog_def)

lemma binary_exponent_le:
  assumes "q \<noteq> 0"
  shows "2 powi (binary_exponent q) \<le> \<bar>q\<bar>"
proof -
  obtain a b where ab: "quotient_of \<bar>q\<bar> = (a, b)" by (cases "quotient_of \<bar>q\<bar>")
  have b: "0 < b" using ab quotient_of_denom_pos by blast
  have q: "\<bar>q\<bar> = of_int a / of_int b" using ab quotient_of_div by blast
  have "0 < \<bar>q\<bar>" using assms by simp
  then have a: "0 < a" using q b by (simp add: zero_less_divide_iff)
  let ?d = "bitlen a - bitlen b"
  have la: "(2::rat) powi (bitlen a - 1) \<le> of_int a"
  proof -
    have "bitlen a - 1 \<ge> 0" using bitlen_ge_1[OF a] by simp
    moreover have "(2::int) ^ nat (bitlen a - 1) \<le> a" using bitlen_bounds[OF a] by simp
    then have "(of_int ((2::int) ^ nat (bitlen a - 1)) :: rat) \<le> of_int a"
      by (simp only: of_int_le_iff)
    ultimately show ?thesis by (simp add: power_int_def)
  qed
  have lb: "of_int b \<le> (2::rat) powi (bitlen b)"
  proof -
    have "b < (2::int) ^ nat (bitlen b)" using bitlen_bounds[OF b] by simp
    then have "(of_int b :: rat) \<le> of_int ((2::int) ^ nat (bitlen b))"
      by (simp only: of_int_le_iff)
    then show ?thesis using bitlen_nonneg[of b] by (simp add: power_int_def)
  qed
  have "(2::rat) powi (?d - 1) = 2 powi (bitlen a - 1) / 2 powi (bitlen b)"
    by (simp add: power_int_diff)
  also have "\<dots> \<le> of_int a / of_int b"
    using la lb b a by (intro frac_le) auto
  finally have low: "(2::rat) powi (?d - 1) \<le> \<bar>q\<bar>" using q by simp
  show ?thesis
    using low ab by (simp add: binary_exponent_def Let_def)
qed

lemma round_half_even_ge1:
  assumes "1 \<le> q"
  shows "1 \<le> round_half_even q"
proof -
  have "1 \<le> \<lfloor>q\<rfloor>" using assms by simp
  then show ?thesis by (simp add: round_half_even_def Let_def)
qed

lemma fl_pos:
  assumes "0 < q"
  shows "0 < fl q"
proof -
  let ?e = "binary_exponent q - 52"
  have "2 powi (binary_exponent q) \<le> q" using binary_exponent_le[of q] assms by simp
  moreover have "(2::rat) powi (binary_exponent q) = 2 powi ?e * 2 powi 52"
    using power_int_add[of "2::rat" "binary_exponent q - 52" 52] by simp
  ultimately have big: "2 powi 52 \<le> q / 2 powi ?e"
    by (simp add: pos_le_divide_eq mult.commute)
  have "(1::rat) \<le> 2 powi 52" by simp
  with big have "1 \<le> q / 2 powi ?e" by (rule order_trans[rotated])
  then have "1 \<le> round_half_even (q / 2 powi ?e)" by (rule round_half_even_ge1)
  then have "0 < (of_int (round_half_even (q / 2 powi ?e)) :: rat) * 2 powi ?e"
    by (simp add: zero_less_mult_iff)
  then show ?thesis using assms by (simp add: fl_def Let_def)
qed


lemma binary_exponent_gt:
  assumes "q \<noteq> 0"
  shows "\<bar>q\<bar> < 2 powi (binary_exponent q + 1)"
proof -
  obtain a b where ab: "quotient_of \<bar>q\<bar> = (a, b)" by (cases "quotient_of \<bar>q\<bar>")
  have b: "0 < b" using ab quotient_of_denom_pos by blast
  have q: "\<bar>q\<bar> = of_int a / of_int b" using ab quotient_of_div by blast
  have "0 < \<bar>q\<bar>" using assms by simp
  then have a: "0 < a" using q b by (simp add: zero_less_divide_iff)
  let ?d = "bitlen a - bitlen b"
  have la: "of_int a < (2::rat) powi (bitlen a)"
  proof -
    have "a < (2::int) ^ nat (bitlen a)" using bitlen_bounds[OF a] by simp
    then have "(of_int a :: rat) < of_int ((2::int) ^ nat (bitlen a))"
      by (simp only: of_int_less_iff)
    then show ?thesis using bitlen_nonneg[of a] by (simp add: power_int_def)
  qed
  have lb: "(2::rat) powi (bitlen b - 1) \<le> of_int b"
  proof -
    have "bitlen b - 1 \<ge> 0" using bitlen_ge_1[OF b] by simp
    moreover have "(2::int) ^ nat (bitlen b - 1) \<le> b" using bitlen_bounds[OF b] by simp
    then have "(of_int ((2::int) ^ nat (bitlen b - 1)) :: rat) \<le> of_int b"
      by (simp only: of_int_le_iff)
    ultimately show ?thesis by (simp add: power_int_def)
  qed
  have "of_int a / of_int b < (2::rat) powi (bitlen a) / 2 powi (bitlen b - 1)"
    using la lb b a by (intro frac_less) auto
  also have "\<dots> = (2::rat) powi (?d + 1)"
    by (simp add: power_int_diff power_int_add)
  finally have up: "\<bar>q\<bar> < (2::rat) powi (?d + 1)" using q by simp
  show ?thesis
    using up ab by (simp add: binary_exponent_def Let_def)
qed

lemma fl_0: "fl 0 = 0"
  by (simp add: fl_def)

lemma fl_1: "fl 1 = 1"
  by code_simp

lemma round_half_even_mono_int:
  assumes "of_int n \<le> q"
  shows "n \<le> round_half_even q"
proof -
  have "n \<le> \<lfloor>q\<rfloor>" using assms by (simp add: le_floor_iff)
  then show ?thesis by (simp add: round_half_even_def Let_def)
qed

lemma round_half_even_le_int:
  assumes "q \<le> of_int n"
  shows "round_half_even q \<le> n"
proof (cases "q = of_int n")
  case True
  then show ?thesis by (simp add: round_half_even_def Let_def)
next
  case False
  then have "q < of_int n" using assms by simp
  then have "\<lfloor>q\<rfloor> < n" by (simp add: floor_less_iff)
  then show ?thesis by (simp add: round_half_even_def Let_def)
qed

lemma fl_lower:
  assumes "0 < q"
  shows "2 powi (binary_exponent q) \<le> fl q"
proof -
  let ?e = "binary_exponent q - 52"
  have pe: "(0::rat) < 2 powi ?e" by simp
  have "2 powi (binary_exponent q) \<le> q" using binary_exponent_le[of q] assms by simp
  moreover have split: "(2::rat) powi (binary_exponent q) = 2 powi ?e * 2 powi 52"
    using power_int_add[of "2::rat" "binary_exponent q - 52" 52] by simp
  ultimately have "of_int (2 ^ 52) \<le> q / 2 powi ?e"
    by (simp add: pos_le_divide_eq mult.commute)
  then have "2 ^ 52 \<le> round_half_even (q / 2 powi ?e)" by (rule round_half_even_mono_int)
  then have "(of_int (2 ^ 52) :: rat) \<le> of_int (round_half_even (q / 2 powi ?e))"
    by (simp only: of_int_le_iff)
  then have "(of_int (2 ^ 52) :: rat) * 2 powi ?e \<le> of_int (round_half_even (q / 2 powi ?e)) * 2 powi ?e"
    using pe by (simp only: mult_le_cancel_right_pos)
  then show ?thesis using assms split by (simp add: fl_def Let_def mult.commute)
qed

lemma fl_upper:
  assumes "0 < q"
  shows "fl q \<le> 2 powi (binary_exponent q + 1)"
proof -
  let ?e = "binary_exponent q - 52"
  have pe: "(0::rat) < 2 powi ?e" by simp
  have "q < 2 powi (binary_exponent q + 1)" using binary_exponent_gt[of q] assms by simp
  moreover have split: "(2::rat) powi (binary_exponent q + 1) = 2 powi ?e * 2 powi 53"
    using power_int_add[of "2::rat" "binary_exponent q - 52" 53] by (simp add: add.commute)
  ultimately have "q / 2 powi ?e \<le> of_int (2 ^ 53)"
    by (simp add: pos_divide_le_eq mult.commute)
  then have "round_half_even (q / 2 powi ?e) \<le> 2 ^ 53" by (rule round_half_even_le_int)
  then have "(of_int (round_half_even (q / 2 powi ?e)) :: rat) \<le> of_int (2 ^ 53)"
    by (simp only: of_int_le_iff)
  then have "of_int (round_half_even (q / 2 powi ?e)) * 2 powi ?e \<le> (of_int (2 ^ 53) :: rat) * 2 powi ?e"
    using pe by (simp only: mult_le_cancel_right_pos)
  then show ?thesis using assms split by (simp add: fl_def Let_def mult.commute)
qed

lemma fl_ge_1:
  assumes "1 \<le> q"
  shows "1 \<le> fl q"
proof -
  have q: "0 < q" using assms by simp
  have "0 \<le> binary_exponent q"
  proof (rule ccontr)
    assume "\<not> 0 \<le> binary_exponent q"
    then have "binary_exponent q + 1 \<le> 0" by simp
    then have "(2::rat) powi (binary_exponent q + 1) \<le> 2 powi 0"
      by (intro power_int_increasing) auto
    then show False using binary_exponent_gt[of q] q assms by simp
  qed
  then have "(2::rat) powi 0 \<le> 2 powi (binary_exponent q)"
    by (intro power_int_increasing) auto
  then show ?thesis using fl_lower[OF q] by simp
qed

lemma fl_le_1:
  assumes "0 \<le> q" and "q \<le> 1"
  shows "fl q \<le> 1"
proof (cases "q = 0 \<or> q = 1")
  case True
  then show ?thesis by (auto simp: fl_0 fl_1)
next
  case False
  then have q: "0 < q" and q1: "q < 1" using assms by auto
  have "binary_exponent q < 0"
  proof (rule ccontr)
    assume "\<not> binary_exponent q < 0"
    then have "(2::rat) powi 0 \<le> 2 powi (binary_exponent q)"
      by (intro power_int_increasing) auto
    then show False using binary_exponent_le[of q] q q1 by simp
  qed
  then have "(2::rat) powi (binary_exponent q + 1) \<le> 2 powi 0"
    by (intro power_int_increasing) auto
  then show ?thesis using fl_upper[OF q] by simp
qed

lemma fl_nonneg:
  assumes "0 \<le> q"
  shows "0 \<le> fl q"
  using assms fl_pos[of q] by (cases "q = 0") (auto simp: fl_0 less_imp_le)

lemma unit_channel_bounds:
  assumes "0 \<le> ch" and "ch \<le> 255"
  shows "0 \<le> unit_channel ch \<and> unit_channel ch \<le> 1"
proof -
  have "(0::rat) \<le> of_int ch / 255" using assms by simp
  moreover have "(of_int ch :: rat) / 255 \<le> 1" using assms by simp
  ultimately show ?thesis
    unfolding unit_channel_def using fl_nonneg fl_le_1 by blast
qed

lemma truediv_pos: "0 < b \<Longrightarrow> truediv a b = Inr (fl (a / b))"
  by (simp add: truediv_def)

lemma fsub_pos: "b < a \<Longrightarrow> 0 < fsub a b"
  by (simp add: fsub_def fl_pos)

lemma cmyk_key_le_1: "cmyk_key c \<le> 1"
  by (cases c) (simp add: cmyk_key_def min_def)

lemma cmyk_returns: "\<exists>c m y k. cmyk (r, g, b) = Inr (c, m, y, k)"
proof (cases "cmyk_key (r, g, b) = 1")
  case True
  then show ?thesis by (simp add: cmyk_def)
next
  case False
  then have "cmyk_key (r, g, b) < 1" using cmyk_key_le_1[of "(r, g, b)"] by simp
  then have "0 < fsub 1 (cmyk_key (r, g, b))" by (rule fsub_pos)
  then show ?thesis using False by (simp add: cmyk_def Let_def truediv_pos)
qed

lemma cmyk_black: "cmyk (0, 0, 0) = Inr (0, 0, 0, 100)"
  by (simp add: cmyk_def cmyk_key_def complement_channel_def unit_channel_def fsub_def fl_0 fl_1)

lemma cmyk_white: "cmyk (255, 255, 255) = Inr (0, 0, 0, 0)"
  by (simp add: cmyk_def cmyk_key_def complement_channel_def unit_channel_def fsub_def fmul_def
      truediv_def py_int_def fl_0 fl_1)

lemma hue_of_returns: "0 < rangec \<Longrightarrow> \<exists>h. hue_of r g b maxc rangec = Inr h"
  by (simp add: hue_of_def truediv_pos Let_def)

lemma rgb_to_hls_canonical:
  assumes "0 \<le> r" "r \<le> 1" "0 \<le> g" "g \<le> 1" "0 \<le> b" "b \<le> 1"
  shows "\<exists>h. rgb_to_hls r g b = Inr (h, canonical_lightness r g b, canonical_saturation r g b)"
proof -
  let ?mx = "max r (max g b)" and ?mn = "min r (min g b)"
  have mx1: "?mx \<le> 1" and mn0: "0 \<le> ?mn" and le: "?mn \<le> ?mx" using assms by auto
  show ?thesis
  proof (cases "?mn = ?mx")
    case True
    then show ?thesis
      by (simp add: rgb_to_hls_def canonical_lightness_def canonical_saturation_def Let_def)
  next
    case False
    then have lt: "?mn < ?mx" using le by simp
    then have range: "0 < fsub ?mx ?mn" by (rule fsub_pos)
    have "0 < ?mx + ?mn" using lt mn0 by linarith
    then have sum: "0 < fadd ?mx ?mn" by (simp add: fadd_def fl_pos)
    have "1 \<le> 2 - ?mx" using mx1 by linarith
    then have "1 \<le> fsub 2 ?mx" unfolding fsub_def by (rule fl_ge_1)
    moreover have "?mn < 1" using lt mx1 by linarith
    ultimately have "?mn < fsub 2 ?mx" by linarith
    then have diff: "0 < fsub (fsub 2 ?mx) ?mn" by (rule fsub_pos)
    obtain h where h: "hue_of r g b ?mx (fsub ?mx ?mn) = Inr h"
      using hue_of_returns[OF range] by blast
    have ne: "?mx \<noteq> ?mn" using False by simp
    show ?thesis
      using False ne h
      by (simp add: rgb_to_hls_def canonical_lightness_def canonical_saturation_def Let_def
          truediv_pos[OF sum] truediv_pos[OF diff])
  qed
qed

lemma paint_row_ok:
  assumes "img_size img = (W, H)" and "0 \<le> y" and "y < H" and "0 \<le> offset + i"
    and "\<forall>j<length row. row ! j \<longrightarrow> offset + i + int j < W"
  shows "\<exists>img'. paint_row col offset y i row (x, img) =
            Inr (if row = [] then x else i + int (length row) - 1, img')
          \<and> img_size img' = (W, H)"
  using assms
proof (induction row arbitrary: i x img)
  case Nil
  then show ?case by simp
next
  case (Cons p ps)
  have shift: "\<forall>j<length ps. ps ! j \<longrightarrow> offset + (i + 1) + int j < W"
  proof (intro allI impI)
    fix j assume "j < length ps" and "ps ! j"
    then have "Suc j < length (p # ps)" and "(p # ps) ! Suc j" by simp_all
    with Cons.prems(5) have "offset + i + int (Suc j) < W" by blast
    then show "offset + (i + 1) + int j < W" by simp
  qed
  have pos: "0 \<le> offset + (i + 1)" using Cons.prems(4) by simp
  show ?case
  proof (cases p)
    case True
    then have "offset + i < W" using Cons.prems(5) by force
    then have put: "putpixel img (offset + i, y) col = Inr (PutPixel img (offset + i, y) col)"
      using Cons.prems by (simp add: putpixel_def)
    have sz: "img_size (PutPixel img (offset + i, y) col) = (W, H)"
      using Cons.prems(1) by simp
    from Cons.IH[OF sz Cons.prems(2) Cons.prems(3) pos shift, of i]
    obtain img' where "paint_row col offset y (i + 1) ps (i, PutPixel img (offset + i, y) col) =
        Inr (if ps = [] then i else i + 1 + int (length ps) - 1, img')"
      and "img_size img' = (W, H)" by blast
    then show ?thesis using True put by auto
  next
    case False
    from Cons.IH[OF Cons.prems(1) Cons.prems(2) Cons.prems(3) pos shift, of i]
    obtain img' where "paint_row col offset y (i + 1) ps (i, img) =
        Inr (if ps = [] then i else i + 1 + int (length ps) - 1, img')"
      and "img_size img' = (W, H)" by blast
    then show ?thesis using False by auto
  qed
qed

lemma paint_rows_ok:
  assumes "img_size img = (W, H)" and "0 \<le> y" and "y + int (length g) \<le> H" and "0 \<le> offset"
    and "0 < w"
    and "\<forall>row \<in> set g. length row = w \<and> (\<forall>j<w. row ! j \<longrightarrow> offset + int j < W)"
  shows "\<exists>img'. paint_rows col offset y g (x, img) =
            Inr (if g = [] then x else int w - 1, img')
          \<and> img_size img' = (W, H)"
  using assms
proof (induction g arbitrary: y x img)
  case Nil
  then show ?case by simp
next
  case (Cons row rows)
  have len: "length row = w" and lit: "\<forall>j<length row. row ! j \<longrightarrow> offset + 0 + int j < W"
    using Cons.prems(6) by auto
  have y: "y < H" using Cons.prems(3) by simp
  have "0 \<le> offset + 0" using Cons.prems(4) by simp
  from paint_row_ok[OF Cons.prems(1) Cons.prems(2) y this lit, of col x]
  obtain img1 where r1: "paint_row col offset y 0 row (x, img) = Inr (int w - 1, img1)"
    and s1: "img_size img1 = (W, H)" using len Cons.prems(5) by auto
  have y1: "0 \<le> y + 1" and h1: "y + 1 + int (length rows) \<le> H"
    using Cons.prems(2,3) by simp_all
  have rest: "\<forall>row \<in> set rows. length row = w \<and> (\<forall>j<w. row ! j \<longrightarrow> offset + int j < W)"
    using Cons.prems(6) by simp
  from Cons.IH[OF s1 y1 h1 Cons.prems(4) Cons.prems(5) rest, of "int w - 1"]
  obtain img' where "paint_rows col offset (y + 1) rows (int w - 1, img1) =
      Inr (if rows = [] then int w - 1 else int w - 1, img')"
    and "img_size img' = (W, H)" by blast
  then show ?case using r1 by auto
qed

lemma wf_glyph_width:
  assumes "font c = Inr g" and "wf_glyph g"
  shows "glyph_width font c = Inr (width_of font c) \<and> 0 < width_of font c
         \<and> g \<noteq> [] \<and> (\<forall>row \<in> set g. int (length row) = width_of font c)"
proof -
  obtain r rs where g: "g = r # rs" using assms(2) by (cases g) (auto simp: wf_glyph_def)
  then have "r \<noteq> []" using assms(2) by (auto simp: wf_glyph_def)
  then show ?thesis using assms g by (auto simp: wf_glyph_def glyph_width_def width_of_def)
qed

lemma paint_char_ok:
  assumes ok: "glyph_ok font c" and sz: "img_size img = (W, 8)" and off: "0 \<le> offset"
    and fit: "offset + width_of font c - 1 \<le> W"
  shows "\<exists>img'. paint_char font col c (offset, x, img) =
            Inr (offset + width_of font c, width_of font c - 1, img')
          \<and> img_size img' = (W, 8)"
proof -
  obtain g where g: "font c = Inr g" and wf: "wf_glyph g"
    using ok by (auto simp: glyph_ok_def split: sum.splits)
  let ?w = "nat (width_of font c)"
  have w: "0 < width_of font c" and ne: "g \<noteq> []"
    and rows: "\<forall>row \<in> set g. int (length row) = width_of font c"
    using wf_glyph_width[of font c g, OF g wf] by auto
  have w': "0 < ?w" using w by simp
  have h: "0 + int (length g) \<le> 8" using wf by (simp add: wf_glyph_def)
  have lit: "\<forall>row \<in> set g. length row = ?w \<and> (\<forall>j<?w. row ! j \<longrightarrow> offset + int j < W)"
  proof (intro ballI conjI allI impI)
    fix row assume r: "row \<in> set g"
    then show len: "length row = ?w" using rows by auto
    fix j assume j: "j < ?w" and on: "row ! j"
    have "row \<noteq> []" and "\<not> last row" using wf r by (auto simp: wf_glyph_def)
    then have "\<not> row ! (length row - 1)" by (simp add: last_conv_nth)
    then have "j \<noteq> ?w - 1" using on len by auto
    then have "int j \<le> width_of font c - 2" using j by linarith
    then show "offset + int j < W" using fit by linarith
  qed
  from paint_rows_ok[OF sz _ h off w' lit, of col x]
  obtain img' where "paint_rows col offset 0 g (x, img) = Inr (int ?w - 1, img')"
    and "img_size img' = (W, 8)" using ne by auto
  then show ?thesis using g w by (simp add: paint_char_def)
qed

lemma sum_widths_ok:
  assumes "\<forall>c \<in> set s. glyph_ok font c"
  shows "sum_widths font s = Inr (sum_list (map (width_of font) s))
         \<and> int (length s) \<le> sum_list (map (width_of font) s)"
  using assms
proof (induction s)
  case Nil
  then show ?case by simp
next
  case (Cons c cs)
  then obtain g where g: "font c = Inr g" and wf: "wf_glyph g"
    by (auto simp: glyph_ok_def split: sum.splits)
  have "glyph_width font c = Inr (width_of font c)" and "0 < width_of font c"
    using wf_glyph_width[of font c g, OF g wf] by auto
  then show ?case using Cons by auto
qed

lemma paint_text_ok:
  assumes "\<forall>c \<in> set s. glyph_ok font c" and "img_size img = (W, 8)" and "0 \<le> offset"
    and "s \<noteq> [] \<longrightarrow> offset + sum_list (map (width_of font) s) - 1 \<le> W"
  shows "\<exists>x' img'. paint_text font col s (offset, x, img) =
            Inr (offset + sum_list (map (width_of font) s), x', img')
          \<and> img_size img' = (W, 8)"
  using assms
proof (induction s arbitrary: offset x img)
  case Nil
  then show ?case by simp
next
  case (Cons c cs)
  have ok: "glyph_ok font c" and oks: "\<forall>c \<in> set cs. glyph_ok font c"
    using Cons.prems(1) by simp_all
  have rest: "int (length cs) \<le> sum_list (map (width_of font) cs)"
    using sum_widths_ok[OF oks] by simp
  then have rest0: "0 \<le> sum_list (map (width_of font) cs)" by linarith
  have tot: "offset + (width_of font c + sum_list (map (width_of font) cs)) - 1 \<le> W"
    using Cons.prems(4) by simp
  then have fit: "offset + width_of font c - 1 \<le> W" using rest0 by linarith
  from paint_char_ok[OF ok Cons.prems(2) Cons.prems(3) fit, of col x]
  obtain img1 where c1: "paint_char font col c (offset, x, img) =
      Inr (offset + width_of font c, width_of font c - 1, img1)"
    and s1: "img_size img1 = (W, 8)" by blast
  obtain g where g: "font c = Inr g" and wf: "wf_glyph g"
    using ok by (auto simp: glyph_ok_def split: sum.splits)
  have w: "0 < width_of font c" using wf_glyph_width[of font c g, OF g wf] by auto
  then have off1: "0 \<le> offset + width_of font c" using Cons.prems(3) by linarith
  have fit1: "cs \<noteq> [] \<longrightarrow> offset + width_of font c + sum_list (map (width_of font) cs) - 1 \<le> W"
    using tot by (simp add: add.assoc)
  from Cons.IH[OF oks s1 off1 fit1, of "width_of font c - 1"]
  obtain x' img' where "paint_text font col cs (offset + width_of font c, width_of font c - 1, img1) =
      Inr (offset + width_of font c + sum_list (map (width_of font) cs), x', img')"
    and "img_size img' = (W, 8)" by blast
  then show ?case using c1 by (auto simp: add.assoc)
qed

lemma generate_text_ok:
  assumes "s \<noteq> []" and "\<forall>c \<in> set s. glyph_ok font c"
  shows "\<exists>img. generate_text font col s = Inr img
           \<and> img_size img = (sum_list (map (width_of font) s) - 1, 8)"
proof -
  let ?n = "sum_list (map (width_of font) s)"
  have sw: "sum_widths font s = Inr ?n" and len: "int (length s) \<le> ?n"
    using sum_widths_ok[OF assms(2)] by auto
  have "0 < length s" using assms(1) by simp
  then have n: "0 \<le> ?n - 1" using len by linarith
  then have new: "image_new (?n - 1, 8) transparent = Inr (New (?n - 1, 8) transparent)"
    by (simp add: image_new_def)
  have sz: "img_size (New (?n - 1, 8) transparent) = (?n - 1, 8)" by simp
  have fit: "s \<noteq> [] \<longrightarrow> 0 + ?n - 1 \<le> ?n - 1" by simp
  from paint_text_ok[OF assms(2) sz _ fit, of col 0]
  obtain x' img' where "paint_text font col s (0, 0, New (?n - 1, 8) transparent) = Inr (0 + ?n, x', img')"
    and "img_size img' = (?n - 1, 8)" by auto
  then show ?thesis using sw new by (simp add: generate_text_def)
qed

lemma generate_text_empty: "generate_text font col [] = Inl ValueError"
  by (simp add: generate_text_def image_new_def)

lemma block_font_ok: "glyph_ok block_font c"
  by (simp add: glyph_ok_def block_font_def wf_glyph_def)

lemma block_font_width: "width_of block_font c = 4"
  by (simp add: width_of_def block_font_def numeral_eq_Suc)

lemma block_font_sum: "sum_list (map (width_of block_font) s) = 4 * int (length s)"
  by (induction s) (simp_all add: block_font_width)

lemma paint_row_size:
  "paint_row col offset y i row (x, img) = Inr (x', img') \<Longrightarrow> img_size img' = img_size img"
proof (induction row arbitrary: i x img)
  case Nil
  then show ?case by simp
next
  case (Cons p ps)
  then show ?case
    by (auto simp: putpixel_def split: if_splits sum.splits)
qed

lemma paint_rows_size:
  "paint_rows col offset y g (x, img) = Inr (x', img') \<Longrightarrow> img_size img' = img_size img"
proof (induction g arbitrary: y x img)
  case Nil
  then show ?case by simp
next
  case (Cons row rows)
  then show ?case
    by (auto split: sum.splits dest: paint_row_size)
qed

lemma paint_char_size:
  "paint_char font col c (offset, x, img) = Inr (offset', x', img') \<Longrightarrow> img_size img' = img_size img"
  by (auto simp: paint_char_def split: sum.splits dest: paint_rows_size)

lemma paint_text_size:
  "paint_text font col s (offset, x, img) = Inr (offset', x', img') \<Longrightarrow> img_size img' = img_size img"
proof (induction s arbitrary: offset x img)
  case Nil
  then show ?case by simp
next
  case (Cons c cs)
  then show ?case
    by (auto split: sum.splits dest: paint_char_size)
qed

lemma generate_text_size:
  assumes "generate_text font col s = Inr img"
  shows "\<exists>n. sum_widths font s = Inr n \<and> img_size img = (n - 1, 8)"
  using assms
  by (auto simp: generate_text_def image_new_def Let_def split: sum.splits if_splits
      dest: paint_text_size)



lemma comma_class:
  "\<not> is_space CHR '',''" "\<not> is_digit CHR '',''" "\<not> is_hex_digit CHR '',''"
  "digit_val 10 CHR '','' = None"
  by (simp_all add: is_space_def is_digit_def is_hex_digit_def digit_val_def)

lemma digits_foreign:
  assumes "c \<in> set v" and "c \<noteq> CHR ''_''" and "digit_val base c = None"
  shows "digits base acc prev v = None"
  using assms
proof (induction v arbitrary: acc prev)
  case Nil
  then show ?case by simp
next
  case (Cons d ds)
  then show ?case by (cases "d = c") (auto split: option.splits)
qed

lemma dropWhile_keeps:
  assumes "c \<in> set s" and "\<not> P c"
  shows "c \<in> set (dropWhile P s)"
  using assms by (induction s) auto

lemma strip_keeps:
  assumes "c \<in> set s" and "\<not> is_space c"
  shows "c \<in> set (strip s)"
proof -
  have "c \<in> set (rev (dropWhile is_space s))" using assms by (simp add: dropWhile_keeps)
  then have "c \<in> set (dropWhile is_space (rev (dropWhile is_space s)))"
    using assms(2) by (rule dropWhile_keeps)
  then show ?thesis by (simp add: strip_def)
qed

lemma int_of_str_comma:
  assumes "CHR '','' \<in> set s"
  shows "int_of_str 10 s = Inl ValueError"
proof -
  let ?t = "strip s"
  let ?u = "case ?t of c # r \<Rightarrow> if c = CHR ''+'' \<or> c = CHR ''-'' then r else ?t | [] \<Rightarrow> ?t"
  have t: "CHR '','' \<in> set ?t" using assms comma_class(1) by (rule strip_keeps)
  have u: "CHR '','' \<in> set ?u" using t by (cases ?t) (auto split: if_splits)
  have "digits 10 0 False ?u = None"
    using u comma_class(4) by (intro digits_foreign[of "CHR '',''"]) auto
  then show ?thesis by (simp add: int_of_str_def Let_def)
qed

lemma hex_fullmatch_comma:
  assumes "CHR '','' \<in> set arg"
  shows "hex_fullmatch arg = None"
proof -
  let ?s = "dropWhile is_space arg"
  let ?t = "case ?s of c # r \<Rightarrow> if c = CHR ''#'' then r else ?s | [] \<Rightarrow> ?s"
  have s: "CHR '','' \<in> set ?s" using assms comma_class(1) by (rule dropWhile_keeps)
  have t: "CHR '','' \<in> set ?t" using s by (cases ?s) (auto split: if_splits)
  have "CHR '','' \<in> set (dropWhile is_hex_digit ?t)"
    using t comma_class(3) by (rule dropWhile_keeps)
  then have "\<not> list_all is_space (dropWhile is_hex_digit ?t)"
    using comma_class(1) by (auto simp: list_all_iff)
  then show ?thesis by (simp add: hex_fullmatch_def Let_def)
qed

lemma take_number_suffix:
  assumes "take_number s = Some (d, r)"
  shows "set r \<subseteq> set s"
proof -
  have "r = dropWhile is_space (dropWhile is_digit (dropWhile is_space s))"
    using assms by (auto simp: take_number_def Let_def split: if_splits)
  then show ?thesis
    by (metis set_dropWhileD subsetI)
qed

lemma rgb_fullmatch_comma:
  assumes "rgb_fullmatch arg = Some (g0, g1, g2, g3)"
  shows "g0 = arg \<and> CHR '','' \<in> set arg"
proof -
  from assms obtain r1 r1' where n1: "take_number arg = Some (g1, r1)"
    and c1: "take_comma r1 = Some r1'" and "g0 = arg"
    by (auto simp: rgb_fullmatch_def split: option.splits if_splits)
  have "CHR '','' \<in> set r1" using c1 by (cases r1) (auto simp: take_comma_def split: if_splits)
  then have "CHR '','' \<in> set arg" using take_number_suffix[OF n1] by blast
  then show ?thesis using \<open>g0 = arg\<close> by simp
qed


section \<open>The claims\<close>

subsection \<open>The text rasterizer\<close>



text \<open>
  Claim C3, as the code behaves. Rasterizing the empty string does not return a bitmap:
  the sum of the widths is 0, the rasterizer asks for a bitmap of width \<open>-1\<close> and height
  8, and \<open>Image.new\<close> raises \<open>ValueError\<close>. For a non-empty string of well-formed
  glyphs the width asked for is not negative and the bitmap is returned.
\<close>

theorem empty_text:
  "generate_text font col [] = Inl ValueError
   \<and> sum_widths font [] = Inr 0
   \<and> image_new (0 - 1, 8) transparent = Inl ValueError
   \<and> (s \<noteq> [] \<and> (\<forall>c \<in> set s. glyph_ok font c) \<longrightarrow>
        (\<exists>n img. sum_widths font s = Inr n \<and> 0 \<le> n - 1
           \<and> generate_text font col s = Inr img \<and> img_size img = (n - 1, 8)))"
proof (intro conjI impI)
  assume a: "s \<noteq> [] \<and> (\<forall>c \<in> set s. glyph_ok font c)"
  then obtain img where g: "generate_text font col s = Inr img"
    using generate_text_ok[of s font col] by blast
  then obtain n where n: "sum_widths font s = Inr n" "img_size img = (n - 1, 8)"
    using generate_text_size by blast
  have "int (length s) \<le> n" using sum_widths_ok[of s font] a n by simp
  moreover have "0 < length s" using a by simp
  ultimately have "0 \<le> n - 1" by linarith
  then show "\<exists>n img. sum_widths font s = Inr n \<and> 0 \<le> n - 1
      \<and> generate_text font col s = Inr img \<and> img_size img = (n - 1, 8)"
    using g n by blast
qed (simp_all add: generate_text_empty image_new_def)

theorem empty_text_witness:
  "generate_text block_font (0, 0, 0) [] = Inl ValueError
   \<and> (\<exists>img. sum_widths block_font ''Hi'' = Inr 8
         \<and> generate_text block_font (0, 0, 0) ''Hi'' = Inr img \<and> img_size img = (7, 8))"
proof -
  have sw: "sum_widths block_font ''Hi'' = Inr 8" by code_simp
  show ?thesis
    using empty_text[of block_font "(0, 0, 0)" "''Hi''"] sw by (auto simp: block_font_ok)
qed

text \<open>
  The empty string is not rasterized to a bitmap of width 0 and height 8, as C3 states:
  the call raises.
\<close>

theorem empty_text_counterexample:
  "generate_text block_font (0, 0, 0) [] = Inl ValueError
   \<and> map_sum id img_size (generate_text block_font (0, 0, 0) []) \<noteq> Inr (0, 8)"
  by code_simp

subsection \<open>The badge\<close>

text \<open>
  Claim C2, with the position the code uses. In a format row the label is composited at
  \<open>x = 8\<close> and the value at \<open>x = 3 + 5 + labelWidth\<close>, that is \<open>8 + labelWidth\<close>
  pixels from the left edge, both at the cursor moved down by 12. Every row of the loop
  over the formats is placed this way.
\<close>

theorem value_position:
  "(generate_text font col label = Inr lab \<and> generate_text font col val = Inr v \<longrightarrow>
      place_row font col (label, val) (img, y) =
        Inr (AlphaComposite (AlphaComposite img lab (8, y + 12)) v
               (8 + fst (img_size lab), y + 12),
             y + 12))
   \<and> (rs key = Some (label, val) \<longrightarrow>
        place_rows font col rs (key # keys) (img, y) =
          (case place_row font col (label, val) (img, y) of
             Inl e \<Rightarrow> Inl e
           | Inr s' \<Rightarrow> place_rows font col rs keys s'))"
  by (simp add: place_row_def Let_def)

theorem value_position_witness:
  "\<exists>lab v. generate_text block_font (0, 0, 0) ''RGB '' = Inr lab
     \<and> generate_text block_font (0, 0, 0) ''255 2 141'' = Inr v
     \<and> img_size lab = (15, 8)
     \<and> place_row block_font (0, 0, 0) (''RGB '', ''255 2 141'') (New (128, 128) transparent, 8) =
         Inr (AlphaComposite (AlphaComposite (New (128, 128) transparent) lab (8, 20)) v (23, 20),
              20)"
proof -
  obtain lab where lab: "generate_text block_font (0, 0, 0) ''RGB '' = Inr lab"
    and ls: "img_size lab = (sum_list (map (width_of block_font) ''RGB '') - 1, 8)"
    using generate_text_ok[of "''RGB ''" block_font "(0, 0, 0)"] by (auto simp: block_font_ok)
  obtain v where v: "generate_text block_font (0, 0, 0) ''255 2 141'' = Inr v"
    using generate_text_ok[of "''255 2 141''" block_font "(0, 0, 0)"]
    by (auto simp: block_font_ok)
  have ls': "img_size lab = (15, 8)" using ls by (simp add: block_font_width)
  show ?thesis
    using value_position[of block_font "(0, 0, 0)" "''RGB ''" lab "''255 2 141''" v
        "New (128, 128) transparent" 8] lab v ls'
    by simp
qed

text \<open>
  The value is not composited at \<open>8 + 5 + labelWidth + 3\<close>, as C2 states: after a label
  15 pixels wide it is placed at \<open>x = 23\<close>, not 31.
\<close>

theorem value_position_counterexample:
  "map_sum id (composites \<circ> fst)
     (place_row block_font (0, 0, 0) (''RGB '', ''255 2 141'') (New (128, 128) transparent, 8))
     = Inr [((15, 8), (8, 20)), ((35, 8), (23, 20))]
   \<and> (23 :: int) \<noteq> 8 + 5 + 15 + 3"
  by code_simp



subsection \<open>Colour conversions\<close>

text \<open>
  Claim C4. \<open>cmyk\<close> returns on every RGB triple of 8-bit channels: when
  \<open>k = min(c, m, y, 1)\<close> is 1 the result is \<open>(0, 0, 0, 100)\<close>, returned before the
  divisions by \<open>1 - k\<close>, and otherwise \<open>1 - k\<close> is not zero, so no division raises
  \<open>ZeroDivisionError\<close>. In particular black gives \<open>(0, 0, 0, 100)\<close> and white
  \<open>(0, 0, 0, 0)\<close>.
\<close>

theorem cmyk_total:
  "(0 \<le> r \<and> r \<le> 255 \<and> 0 \<le> g \<and> g \<le> 255 \<and> 0 \<le> b \<and> b \<le> 255 \<longrightarrow>
      (\<exists>c m y k. cmyk (r, g, b) = Inr (c, m, y, k)))
   \<and> (cmyk_key (r, g, b) = 1 \<longrightarrow> cmyk (r, g, b) = Inr (0, 0, 0, 100))
   \<and> cmyk (0, 0, 0) = Inr (0, 0, 0, 100)
   \<and> cmyk (255, 255, 255) = Inr (0, 0, 0, 0)"
  using cmyk_returns[of r g b] cmyk_black cmyk_white by (simp add: cmyk_def)

theorem cmyk_total_witness:
  "(\<exists>c m y k. cmyk (255, 2, 141) = Inr (c, m, y, k))
   \<and> cmyk_key (0, 0, 0) = 1 \<and> cmyk (0, 0, 0) = Inr (0, 0, 0, 100)"
proof -
  have k: "cmyk_key (0, 0, 0) = 1"
    by (simp add: cmyk_key_def complement_channel_def unit_channel_def fsub_def fl_0 fl_1)
  show ?thesis using cmyk_total[of 255 2 141] cmyk_total[of 0 0 0] k by simp
qed

text \<open>
  Claim C6. On every RGB triple of 8-bit channels \<open>hsl\<close> returns hue, saturation,
  lightness in this order: its second component is the canonical saturation of the colour
  and its third the canonical lightness, each times 100 and truncated. \<open>rgb_to_hls\<close>
  yields them in the order lightness, saturation, and \<open>hsl\<close> puts each in its slot.
\<close>

theorem hsl_component_order:
  assumes "0 \<le> r \<and> r \<le> 255" and "0 \<le> g \<and> g \<le> 255" and "0 \<le> b \<and> b \<le> 255"
  shows "\<exists>h. hsl (r, g, b) =
           Inr (h,
                py_int (fmul (canonical_saturation (unit_channel r) (unit_channel g) (unit_channel b)) 100),
                py_int (fmul (canonical_lightness (unit_channel r) (unit_channel g) (unit_channel b)) 100))"
proof -
  obtain h where "rgb_to_hls (unit_channel r) (unit_channel g) (unit_channel b) =
      Inr (h, canonical_lightness (unit_channel r) (unit_channel g) (unit_channel b),
              canonical_saturation (unit_channel r) (unit_channel g) (unit_channel b))"
    using rgb_to_hls_canonical[of "unit_channel r" "unit_channel g" "unit_channel b"]
      unit_channel_bounds assms by blast
  then show ?thesis by (simp add: hsl_def)
qed

theorem hsl_component_order_witness:
  "\<exists>h. hsl (255, 0, 0) = Inr (h, 100, 50)"
proof -
  have u: "unit_channel 255 = 1" "unit_channel 0 = 0"
    by (simp_all add: unit_channel_def fl_0 fl_1)
  have s: "py_int (fmul (canonical_saturation 1 0 0) 100) = 100"
    by code_simp
  have l: "py_int (fmul (canonical_lightness 1 0 0) 100) = 50"
    by code_simp
  show ?thesis using hsl_component_order[of 255 0 0] u s l by simp
qed

text \<open>
  Claim C8. For every RGB triple with equal channels, the saturation that \<open>hsv\<close> returns
  is 0 and the saturation that \<open>hsl\<close> returns is 0.
\<close>

theorem achromatic_saturation:
  "hsv (v, v, v) = Inr (0, 0, py_int (fmul (unit_channel v) 100))
   \<and> hsl (v, v, v) =
       Inr (0, 0, py_int (fmul (fl (fadd (unit_channel v) (unit_channel v) / 2)) 100))"
  by (simp add: hsv_def hsl_def rgb_to_hsv_def rgb_to_hls_def Let_def fmul_def fl_0 py_int_def)

subsection \<open>The canvas\<close>

text \<open>
  Claim C7. For the resolution 1920 by 1080 the badge is scaled to
  \<open>128 * max(round(1080 / 4 / 128), 1) = 256\<close> pixels, and the offset that centres it,
  computed with floor division, is \<open>(832, 412)\<close>.
\<close>

theorem decor_size_full_hd:
  "decor_size (1920, 1080) = Inr 256 \<and> decor_offset (1920, 1080) 256 = (832, 412)"
proof -
  have "decor_size (1920, 1080) = Inr 256" by code_simp
  moreover have "decor_offset (1920, 1080) 256 = (832, 412)" by (simp add: decor_offset_def)
  ultimately show ?thesis by simp
qed

subsection \<open>Parsing the colours\<close>

text \<open>
  Claim C9 states that every colour handed to the renderer is named by the table of
  colours or \<open>Anonymous\<close>. \<open>color\<close> names a colour without a name \<open>Anonymous\<close>;
  \<open>inverted_color\<close> does not. When no highlight colour is given and the table
  \<open>hex_to_color\<close> has no entry for the inverted background, the name of the highlight
  colour is \<open>None\<close>: so it is for the default background \<open>(255, 2, 141)\<close>, whose
  inverse \<open>(0, 253, 114)\<close> has the key \<open>00fd72\<close>.
\<close>

theorem inverted_color_name:
  assumes "hex_to_color ''00fd72'' = None"
  shows "get_options_colors color_to_hex hex_to_color pretty_names None None =
           Inr (default_color, \<lparr>rgb = (0, 253, 114), name = None\<rparr>)"
proof -
  have "concat (map3 (format_02x False) (0, 253, 114)) = ''00fd72''" by code_simp
  then show ?thesis
    using assms by (simp add: get_options_colors_def default_color_def inverted_color_def)
qed

theorem inverted_color_name_witness:
  "sample_hex_to_color ''00fd72'' = None
   \<and> get_options_colors Map.empty sample_hex_to_color Map.empty None None =
       Inr (default_color, \<lparr>rgb = (0, 253, 114), name = None\<rparr>)"
proof -
  have h: "sample_hex_to_color ''00fd72'' = None" by (simp add: sample_hex_to_color_def)
  show ?thesis
    using inverted_color_name[where hex_to_color = sample_hex_to_color
        and color_to_hex = Map.empty and pretty_names = Map.empty] h
    by simp
qed

text \<open>
  Claim C10 states that \<open>color\<close> accepts every string \<open>R,G,B\<close> of three decimal
  components. It accepts none: it converts the groups 0, 1 and 2 of the match, and group
  0 is the whole string, on whose comma \<open>int\<close> raises \<open>ValueError\<close>. Every string that
  \<open>rgb_re\<close> matches is rejected.
\<close>

theorem color_rejects_rgb_triples:
  assumes "rgb_fullmatch arg = Some (g0, r, g, b)"
  shows "color color_to_hex pretty_names arg = Inl ValueError"
proof -
  have g0: "g0 = arg" and comma: "CHR '','' \<in> set arg"
    using rgb_fullmatch_comma[OF assms] by simp_all
  have "hex_fullmatch arg = None" using comma by (rule hex_fullmatch_comma)
  moreover have "int_tuple arg r g = Inl ValueError"
    using int_of_str_comma[OF comma] by (simp add: int_tuple_def)
  ultimately show ?thesis using assms g0 by (simp add: color_def)
qed

theorem color_rejects_rgb_triples_witness:
  "rgb_fullmatch ''255,2,141'' = Some (''255,2,141'', ''255'', ''2'', ''141'')
   \<and> color Map.empty Map.empty ''255,2,141'' = Inl ValueError"
proof -
  have m: "rgb_fullmatch ''255,2,141'' = Some (''255,2,141'', ''255'', ''2'', ''141'')"
    by (simp add: rgb_fullmatch_def take_number_def take_comma_def is_space_def is_digit_def)
  show ?thesis
    using color_rejects_rgb_triples[OF m, of Map.empty Map.empty] m by simp
qed

end
